theory Spec2Isabelle
  imports Main "HOL-Library.Sublist"
begin

section \<open>JavaScript values used by the style gatherer and the CSS audits\<close>

text \<open>
  A JavaScript string is modelled as a \<open>string\<close> whose characters are code units below
  256. A value that may be \<open>undefined\<close> is an \<open>option\<close>, with \<open>None\<close> for
  \<open>undefined\<close>. A property read or a method call on \<open>undefined\<close> throws a
  \<open>TypeError\<close>; a rejected promise carries the rejection reason.
\<close>

datatype js_error = TypeError | Rejected string

text \<open>Truthiness of an optional string argument: \<open>undefined\<close> and \<open>''\<close> are falsy.\<close>

definition truthy :: "string option \<Rightarrow> bool" where
  "truthy v = (case v of None \<Rightarrow> False | Some s \<Rightarrow> s \<noteq> [])"

text \<open>\<open>ToString\<close> of an optional string argument, as \<open>indexOf\<close> applies it to its needle.\<close>

definition toString_arg :: "string option \<Rightarrow> string" where
  "toString_arg v = (case v of None \<Rightarrow> ''undefined'' | Some s \<Rightarrow> s)"

text \<open>\<open>String.prototype.startsWith\<close>-style test at the head of a string.\<close>

fun starts_with :: "string \<Rightarrow> string \<Rightarrow> bool" where
  "starts_with hay [] = True"
| "starts_with [] (n # ns) = False"
| "starts_with (h # hs) (n # ns) = (h = n \<and> starts_with hs ns)"

text \<open>
  \<open>hay.indexOf(needle)\<close>: the least position at which \<open>needle\<close> occurs in \<open>hay\<close>,
  or \<open>-1\<close>. The empty needle is found at position 0, also in the empty string.
\<close>

fun indexOf_from :: "int \<Rightarrow> string \<Rightarrow> string \<Rightarrow> int" where
  "indexOf_from i [] needle = (if needle = [] then i else -1)"
| "indexOf_from i (h # hs) needle =
     (if starts_with (h # hs) needle then i else indexOf_from (i + 1) hs needle)"

definition indexOf :: "string \<Rightarrow> string \<Rightarrow> int" where
  "indexOf hay needle = indexOf_from 0 hay needle"

text \<open>\<open>s.split(c)\<close> for a one-character separator: never the empty array.\<close>

fun split_on :: "char \<Rightarrow> string \<Rightarrow> string list" where
  "split_on c [] = [[]]"
| "split_on c (x # xs) =
     (if x = c then [] # split_on c xs
      else (case split_on c xs of
              [] \<Rightarrow> [[x]]
            | p # ps \<Rightarrow> (x # p) # ps))"

text \<open>
  White space and line terminators that \<open>trim\<close> and \<open>ToNumber\<close> strip, among the
  code units below 256: TAB, LF, VT, FF, CR, SPACE and NBSP.
\<close>

definition is_js_space :: "char \<Rightarrow> bool" where
  "is_js_space c = (of_char c \<in> {9, 10, 11, 12, 13, 32, 160 :: nat})"

definition trim :: "string \<Rightarrow> string" where
  "trim s = rev (dropWhile is_js_space (rev (dropWhile is_js_space s)))"

text \<open>\<open>xs[i]\<close> for an array read by a number: \<open>undefined\<close> outside the array.\<close>

definition at_index :: "'a list \<Rightarrow> int \<Rightarrow> 'a option" where
  "at_index xs i = (if 0 \<le> i \<and> i < int (length xs) then Some (xs ! nat i) else None)"

section \<open>Data model\<close>

record property =
  name :: "string option"
  val :: "string option"

record declarationRange =
  startLine :: int
  startColumn :: int
  endLine :: int
  endColumn :: int

record css_declaration =
  property :: property
  declarationRange :: declarationRange
  selector :: string

record header =
  styleSheetId :: string
  origin :: string
  sourceURL :: string

text \<open>
  A \<open>styleHeader\<close> object: the protocol's \<open>header\<close>, and the two fields the gatherer
  adds once the text is fetched and parsed (\<open>undefined\<close> before).
\<close>

record stylesheet =
  header :: header
  content :: "string option"
  parsedContent :: "css_declaration list option"

section \<open>The audits: \<open>stylesheetsThatUsedProperty\<close> and \<open>getPropertyUse\<close>\<close>

text \<open>
  The callback of the inner \<open>filter\<close> in \<open>uses-new-flexbox.js\<close>. Both \<open>usedName\<close>
  and \<open>usedVal\<close> are computed before the branches, so \<open>item.property.val.indexOf\<close>
  is called for every item and throws when \<open>val\<close> is \<open>undefined\<close>.
\<close>

definition usedProperty :: "string option \<Rightarrow> string option \<Rightarrow> css_declaration \<Rightarrow> js_error + bool" where
  "usedProperty propName propVal item =
     (let usedName = (name (property item) = propName) in
      case val (property item) of
        None \<Rightarrow> Inl TypeError
      | Some v \<Rightarrow>
          (let usedVal = (indexOf v (toString_arg propVal) = 0) in
           if truthy propName \<and> \<not> truthy propVal then Inr usedName
           else if \<not> truthy propName \<and> truthy propVal then Inr usedVal
           else if truthy propName \<and> truthy propVal then Inr (usedName \<and> usedVal)
           else Inr False))"

text \<open>
  The callback of the unnamed audit (\<open>getPropertyUse\<close>) has no final \<open>return false\<close>:
  it falls through and returns \<open>undefined\<close>, which \<open>filter\<close> takes as falsy.
\<close>

definition usedProperty_opt :: "string option \<Rightarrow> string option \<Rightarrow> css_declaration \<Rightarrow> js_error + bool option" where
  "usedProperty_opt opt_name opt_val item =
     (let usedName = (name (property item) = opt_name) in
      case val (property item) of
        None \<Rightarrow> Inl TypeError
      | Some v \<Rightarrow>
          (let usedVal = (indexOf v (toString_arg opt_val) = 0) in
           if truthy opt_name \<and> \<not> truthy opt_val then Inr (Some usedName)
           else if \<not> truthy opt_name \<and> truthy opt_val then Inr (Some usedVal)
           else if truthy opt_name \<and> truthy opt_val then Inr (Some (usedName \<and> usedVal))
           else Inr None))"

text \<open>\<open>Array.prototype.filter\<close> with a callback that may throw: the first throw ends it.\<close>

fun filter_throwing :: "('a \<Rightarrow> js_error + bool) \<Rightarrow> 'a list \<Rightarrow> js_error + 'a list" where
  "filter_throwing f [] = Inr []"
| "filter_throwing f (x # xs) =
     (case f x of
        Inl e \<Rightarrow> Inl e
      | Inr b \<Rightarrow>
          (case filter_throwing f xs of
             Inl e \<Rightarrow> Inl e
           | Inr ys \<Rightarrow> Inr (if b then x # ys else ys)))"

text \<open>
  The stylesheet records are objects: the array \<open>stylesheets\<close> holds references into a
  store of records. \<open>stylesheets.slice(0)\<close> copies the array, not the records, so the
  assignment \<open>s.parsedContent = ...\<close> in the callback of the outer \<open>filter\<close> writes
  the record the caller passed in. The function returns the store it leaves behind and
  the array of the records kept, or the error thrown; a throw leaves the records written
  so far as they are.
\<close>

type_synonym ref = nat
type_synonym store = "ref \<Rightarrow> stylesheet"

fun filter_sheets :: "(css_declaration \<Rightarrow> js_error + bool) \<Rightarrow> store \<Rightarrow> ref list \<Rightarrow> store \<times> (js_error + ref list)" where
  "filter_sheets f h [] = (h, Inr [])"
| "filter_sheets f h (s # ss) =
     (case parsedContent (h s) of
        None \<Rightarrow> (h, Inl TypeError)
      | Some items \<Rightarrow>
          (case filter_throwing f items of
             Inl e \<Rightarrow> (h, Inl e)
           | Inr kept \<Rightarrow>
               (let h' = h(s := (h s)\<lparr>parsedContent := Some kept\<rparr>) in
                case filter_sheets f h' ss of
                  (h'', Inl e) \<Rightarrow> (h'', Inl e)
                | (h'', Inr out) \<Rightarrow> (h'', Inr (if length kept > 0 then s # out else out)))))"

definition stylesheetsThatUsedProperty ::
    "store \<Rightarrow> ref list \<Rightarrow> string option \<Rightarrow> string option \<Rightarrow> store \<times> (js_error + ref list)" where
  "stylesheetsThatUsedProperty h stylesheets propName propVal =
     (if \<not> truthy propName \<and> \<not> truthy propVal then (h, Inr [])
      else filter_sheets (usedProperty propName propVal) h stylesheets)"

definition getPropertyUse ::
    "store \<Rightarrow> ref list \<Rightarrow> string option \<Rightarrow> string option \<Rightarrow> store \<times> (js_error + ref list)" where
  "getPropertyUse h stylesheets opt_name opt_val =
     (if \<not> truthy opt_name \<and> \<not> truthy opt_val then (h, Inr [])
      else filter_sheets
             (\<lambda>item. map_sum id (\<lambda>r. r = Some True) (usedProperty_opt opt_name opt_val item))
             h stylesheets)"

section \<open>The audits: \<open>getFormattedStyleContent\<close>\<close>

text \<open>\<open>xs.join(sep)\<close> on an array of strings.\<close>

fun join :: "string \<Rightarrow> string list \<Rightarrow> string" where
  "join sep [] = []"
| "join sep [x] = x"
| "join sep (x # y # ys) = x @ sep @ join sep (y # ys)"

text \<open>
  \<open>s.substring(start, end)\<close>: both arguments are clamped to \<open>0 .. s.length\<close> and
  swapped when the first is the larger.
\<close>

definition substring :: "string \<Rightarrow> int \<Rightarrow> int \<Rightarrow> string" where
  "substring s start end' =
     (let len = int (length s);
          finalStart = min (max start 0) len;
          finalEnd = min (max end' 0) len;
          from = min finalStart finalEnd;
          to = max finalStart finalEnd
      in take (nat (to - from)) (drop (nat from) s))"

text \<open>
  \<open>ToIntegerOrInfinity\<close> of \<open>ToNumber\<close> of a string, which is what
  \<open>Array.prototype.slice\<close> applies to an argument that is a string. The string is
  trimmed; the empty string is 0; a binary, octal or hexadecimal literal, \<open>Infinity\<close>
  and a signed decimal literal with fraction and exponent have their value, truncated
  towards zero; every other string is \<open>NaN\<close>, which becomes 0. The value of a
  literal is rounded to the nearest double, ties to even, before it is truncated.
\<close>

datatype js_integer = NegInfinity | Finite int | PosInfinity

text \<open>The number of binary digits of a positive integer.\<close>

function bit_length :: "int \<Rightarrow> int" where
  "bit_length n = (if n \<le> 0 then 0 else 1 + bit_length (n div 2))"
  by pat_completeness auto
termination
  by (relation "measure nat") auto

text \<open>The integer nearest to \<open>a / b\<close>, the even one of two that are equally near.\<close>

definition round_half_even :: "int \<Rightarrow> int \<Rightarrow> int" where
  "round_half_even a b =
     (let q = a div b; r = a mod b
      in if 2 * r < b then q
         else if b < 2 * r then q + 1
         else if even q then q else q + 1)"

text \<open>The greatest \<open>e\<close> with \<open>2 ^ e \<le> num / den\<close>, for positive \<open>num\<close> and \<open>den\<close>.\<close>

definition floor_log2 :: "int \<Rightarrow> int \<Rightarrow> int" where
  "floor_log2 num den =
     (let d = bit_length num - bit_length den
      in if (if 0 \<le> d then den * 2 ^ nat d \<le> num else den \<le> num * 2 ^ nat (- d))
         then d else d - 1)"

text \<open>
  The double nearest to \<open>num / den\<close>, for \<open>num\<close> not negative and \<open>den\<close>
  positive, as \<open>(n, p)\<close> for the value \<open>n * 2 ^ p\<close>: 53 binary digits, fewer below
  \<open>2 ^ -1022\<close>; \<open>None\<close> is \<open>Infinity\<close>, from \<open>2 ^ 1024\<close> on.
\<close>

definition double_of_ratio :: "int \<Rightarrow> int \<Rightarrow> (int \<times> int) option" where
  "double_of_ratio num den =
     (if num = 0 then Some (0, 0)
      else
        (let e = floor_log2 num den;
             p = max (e - 52) (- 1074);
             n = (if 0 \<le> p then round_half_even num (den * 2 ^ nat p)
                  else round_half_even (num * 2 ^ nat (- p)) den)
         in if 971 < p \<or> (p = 971 \<and> 2 ^ 53 \<le> n) then None else Some (n, p)))"

text \<open>\<open>ToIntegerOrInfinity\<close> of the double nearest to \<open>num / den\<close>.\<close>

definition integer_of_ratio :: "int \<Rightarrow> int \<Rightarrow> js_integer" where
  "integer_of_ratio num den =
     (case double_of_ratio num den of
        None \<Rightarrow> PosInfinity
      | Some (n, p) \<Rightarrow>
          Finite (if 0 \<le> p then n * 2 ^ nat p else n div 2 ^ nat (- p)))"

definition digit_value :: "char \<Rightarrow> nat option" where
  "digit_value c =
     (let n = (of_char c :: nat) in
      if 48 \<le> n \<and> n \<le> 57 then Some (n - 48)
      else if 97 \<le> n \<and> n \<le> 102 then Some (n - 87)
      else if 65 \<le> n \<and> n \<le> 70 then Some (n - 55)
      else None)"

definition is_digit :: "nat \<Rightarrow> char \<Rightarrow> bool" where
  "is_digit base c = (case digit_value c of None \<Rightarrow> False | Some d \<Rightarrow> d < base)"

definition digits_value :: "nat \<Rightarrow> string \<Rightarrow> int" where
  "digits_value base ds =
     foldl (\<lambda>acc c. acc * int base + (case digit_value c of None \<Rightarrow> 0 | Some d \<Rightarrow> int d)) 0 ds"

definition all_digits :: "nat \<Rightarrow> string \<Rightarrow> bool" where
  "all_digits base ds = (ds \<noteq> [] \<and> list_all (is_digit base) ds)"

text \<open>The exponent part: empty, or \<open>e\<close> or \<open>E\<close>, an optional sign and decimal digits.\<close>

definition exponent_part :: "string \<Rightarrow> int option" where
  "exponent_part s =
     (case s of
        [] \<Rightarrow> Some 0
      | c # r \<Rightarrow>
          if c = CHR ''e'' \<or> c = CHR ''E'' then
            (case r of
               [] \<Rightarrow> None
             | d # r' \<Rightarrow>
                 if d = CHR ''-'' then
                   (if all_digits 10 r' then Some (- digits_value 10 r') else None)
                 else if d = CHR ''+'' then
                   (if all_digits 10 r' then Some (digits_value 10 r') else None)
                 else (if all_digits 10 r then Some (digits_value 10 r) else None))
          else None)"

text \<open>
  An unsigned decimal literal, as the truncated value of its double; \<open>None\<close> for
  \<open>NaN\<close>.
\<close>

definition unsigned_decimal :: "string \<Rightarrow> js_integer option" where
  "unsigned_decimal s =
     (if s = ''Infinity'' then Some PosInfinity
      else
        (let ip = takeWhile (is_digit 10) s;
             r = dropWhile (is_digit 10) s;
             fp = (case r of [] \<Rightarrow> [] | c # r' \<Rightarrow> if c = CHR ''.'' then takeWhile (is_digit 10) r' else []);
             r2 = (case r of [] \<Rightarrow> [] | c # r' \<Rightarrow> if c = CHR ''.'' then dropWhile (is_digit 10) r' else r)
         in if ip = [] \<and> fp = [] then None
            else (case exponent_part r2 of
                    None \<Rightarrow> None
                  | Some e \<Rightarrow>
                      (let m = digits_value 10 (ip @ fp);
                           k = e - int (length fp)
                       in Some (if 0 \<le> k then integer_of_ratio (m * 10 ^ nat k) 1
                                else integer_of_ratio m (10 ^ nat (- k)))))))"

definition negate :: "js_integer \<Rightarrow> js_integer" where
  "negate n = (case n of NegInfinity \<Rightarrow> PosInfinity | PosInfinity \<Rightarrow> NegInfinity | Finite i \<Rightarrow> Finite (- i))"

definition string_to_integer :: "string \<Rightarrow> js_integer" where
  "string_to_integer s =
     (let t = trim s in
      case t of
        [] \<Rightarrow> Finite 0
      | c # r \<Rightarrow>
          if c = CHR ''0'' \<and> r \<noteq> [] \<and> hd r \<in> {CHR ''x'', CHR ''X''} then
            (if all_digits 16 (tl r) then integer_of_ratio (digits_value 16 (tl r)) 1 else Finite 0)
          else if c = CHR ''0'' \<and> r \<noteq> [] \<and> hd r \<in> {CHR ''o'', CHR ''O''} then
            (if all_digits 8 (tl r) then integer_of_ratio (digits_value 8 (tl r)) 1 else Finite 0)
          else if c = CHR ''0'' \<and> r \<noteq> [] \<and> hd r \<in> {CHR ''b'', CHR ''B''} then
            (if all_digits 2 (tl r) then integer_of_ratio (digits_value 2 (tl r)) 1 else Finite 0)
          else if c = CHR ''-'' then
            (case unsigned_decimal r of None \<Rightarrow> Finite 0 | Some n \<Rightarrow> negate n)
          else if c = CHR ''+'' then
            (case unsigned_decimal r of None \<Rightarrow> Finite 0 | Some n \<Rightarrow> n)
          else (case unsigned_decimal t of None \<Rightarrow> Finite 0 | Some n \<Rightarrow> n))"

text \<open>
  The relative index of \<open>slice\<close>: a negative one counts from the end, and the result is
  clamped to \<open>0 .. len\<close>.
\<close>

definition relative_index :: "nat \<Rightarrow> js_integer \<Rightarrow> nat" where
  "relative_index len r =
     (case r of
        NegInfinity \<Rightarrow> 0
      | PosInfinity \<Rightarrow> len
      | Finite i \<Rightarrow> if i < 0 then nat (max (int len + i) 0) else nat (min i (int len)))"

text \<open>
  \<open>xs.slice(start, end)\<close> where each argument is a string or \<open>undefined\<close>: an
  \<open>undefined\<close> start is 0, an \<open>undefined\<close> end is the length.
\<close>

definition slice_by_strings :: "'a list \<Rightarrow> string option \<Rightarrow> string option \<Rightarrow> 'a list" where
  "slice_by_strings xs start end' =
     (let len = length xs;
          k = (case start of None \<Rightarrow> 0 | Some s \<Rightarrow> relative_index len (string_to_integer s));
          final = (case end' of None \<Rightarrow> len | Some s \<Rightarrow> relative_index len (string_to_integer s))
      in take (final - k) (drop k xs))"

text \<open>
  A number in a template literal. Line and column numbers are integers; an integer is
  read as the double nearest to it. Its digits are the fewest digits \<open>s\<close> such that
  \<open>s * 10 ^ t\<close> has this double as its nearest, and of two such the nearer one;
  seventeen digits always do. Up to 21 places the digits are printed with \<open>t\<close>
  zeros after them, and beyond that in the form \<open>d.ddde+n\<close>.
\<close>

definition digit_char :: "int \<Rightarrow> char" where
  "digit_char d = char_of (of_char CHR ''0'' + nat d)"

function decimal_digits :: "int \<Rightarrow> string" where
  "decimal_digits n =
     (if 10 \<le> n then decimal_digits (n div 10) @ [digit_char (n mod 10)] else [digit_char n])"
  by pat_completeness auto
termination
  by (relation "measure nat") auto

definition nearest_double :: "int \<Rightarrow> int option" where
  "nearest_double x =
     (case double_of_ratio x 1 of
        None \<Rightarrow> None
      | Some (n, p) \<Rightarrow> Some (if 0 \<le> p then n * 2 ^ nat p else n div 2 ^ nat (- p)))"

text \<open>
  The digits \<open>s\<close> and the power of ten \<open>t\<close> for a double \<open>x\<close> that has \<open>len\<close>
  decimal digits, trying \<open>k\<close> digits and then more.
\<close>

fun shortest_decimal :: "nat \<Rightarrow> nat \<Rightarrow> nat \<Rightarrow> int \<Rightarrow> int \<times> nat" where
  "shortest_decimal 0 k len x = (x, 0)"
| "shortest_decimal (Suc fuel) k len x =
     (let t = 10 ^ (len - k);
          lo = x div t;
          hi = lo + 1;
          lo_ok = (nearest_double (lo * t) = Some x);
          hi_ok = (nearest_double (hi * t) = Some x)
      in if lo_ok \<and> (\<not> hi_ok \<or> x - lo * t \<le> hi * t - x) then (lo, len - k)
         else if hi_ok then (hi, len - k)
         else shortest_decimal fuel (Suc k) len x)"

definition string_of_number :: "int \<Rightarrow> string" where
  "string_of_number i =
     (case nearest_double i of
        None \<Rightarrow> ''Infinity''
      | Some x \<Rightarrow>
          (case shortest_decimal 17 1 (length (decimal_digits x)) x of
             (s, t) \<Rightarrow>
               (let ds = decimal_digits s;
                    n = length ds + t;
                    fraction = rev (dropWhile (\<lambda>c. c = CHR ''0'') (rev (tl ds)))
                in if n \<le> 21 then ds @ replicate t (CHR ''0'')
                   else hd ds # (if fraction = [] then [] else CHR ''.'' # fraction)
                        @ ''e+'' @ decimal_digits (int n - 1))))"

definition string_of_int :: "int \<Rightarrow> string" where
  "string_of_int i =
     (if i < 0 then CHR ''-'' # string_of_number (- i) else string_of_number i)"

text \<open>
  The variable \<open>rule\<close> of \<open>getFormattedStyleContent\<close>. On one line it is a substring
  of \<open>lines[lineNum]\<close>, and reading \<open>substring\<close> of \<open>undefined\<close> throws. Over several
  lines the local constants \<open>startLine\<close> and \<open>endLine\<close> hold the text of the two
  lines, and these texts are the arguments of \<open>lines.slice\<close>; every line of the slice
  is cut from \<open>startColumn\<close> to \<open>endColumn\<close>.
\<close>

definition getFormattedStyleContent_rule :: "string \<Rightarrow> css_declaration \<Rightarrow> js_error + string" where
  "getFormattedStyleContent_rule content' parsedContent' =
     (let lines = split_on CHR 0x0A content';
          declarationRange' = declarationRange parsedContent';
          lineNum = startLine declarationRange';
          start = startColumn declarationRange';
          end' = endColumn declarationRange'
      in if startLine declarationRange' = endLine declarationRange' then
           (case at_index lines lineNum of
              None \<Rightarrow> Inl TypeError
            | Some l \<Rightarrow> Inr (substring l start end'))
         else
           (let startLine' = at_index lines (startLine declarationRange');
                endLine' = at_index lines (endLine declarationRange')
            in Inr (join [CHR 0x0A]
                      (map (\<lambda>line. substring line (startColumn declarationRange') (endColumn declarationRange'))
                           (slice_by_strings lines startLine' endLine')))))"

definition getFormattedStyleContent :: "string \<Rightarrow> css_declaration \<Rightarrow> js_error + string" where
  "getFormattedStyleContent content' parsedContent' =
     (case getFormattedStyleContent_rule content' parsedContent' of
        Inl e \<Rightarrow> Inl e
      | Inr rule \<Rightarrow>
          Inr ([CHR 0x0A] @ selector parsedContent' @ '' {'' @ [CHR 0x0A] @ ''  '' @ rule @ [CHR 0x0A]
               @ ''} (line: '' @ string_of_int (startLine (declarationRange parsedContent'))
               @ '', row: '' @ string_of_int (startColumn (declarationRange parsedContent'))
               @ '', col: '' @ string_of_int (endColumn (declarationRange parsedContent')) @ '')''))"

text \<open>
  The multi-line excerpt as the specification words it: the start line from
  \<open>startColumn\<close> to its end, every line strictly between the two, and the end line
  from its beginning to \<open>endColumn\<close>, joined by line feeds, with the lines taken by
  their numbers.
\<close>

definition multiline_excerpt_spec :: "string \<Rightarrow> declarationRange \<Rightarrow> string" where
  "multiline_excerpt_spec content' r =
     (let lines = split_on CHR 0x0A content';
          first = drop (nat (startColumn r)) (lines ! nat (startLine r));
          middle = take (nat (endLine r) - nat (startLine r) - 1) (drop (nat (startLine r) + 1) lines);
          last' = take (nat (endColumn r)) (lines ! nat (endLine r))
      in join [CHR 0x0A] (first # middle @ [last']))"

section \<open>The gatherer: \<open>getCSSPropsInStyleSheet\<close>\<close>

text \<open>
  The parser is a collaborator. Of its parse tree the gatherer reads, through
  \<open>traverseByType('declaration', ...)\<close>, the declaration nodes in traversal order: the
  text of each (\<open>node.toString()\<close>), its range and its parent's selectors as a string.
\<close>

record declaration_node =
  node_text :: string
  node_declarationRange :: declarationRange
  parent_selectors :: string

text \<open>
  \<open>node.toString().split(':')\<close> cuts the text at every colon; the destructuring
  \<open>[name, val]\<close> takes the first two pieces, and \<open>val\<close> is \<open>undefined\<close> when there is
  one piece only.
\<close>

definition getCSSPropsInStyleSheet :: "declaration_node list \<Rightarrow> css_declaration list" where
  "getCSSPropsInStyleSheet parseTree =
     map (\<lambda>node.
            let parts = map trim (split_on CHR '':'' (node_text node))
            in \<lparr>property = \<lparr>name = at_index parts 0, val = at_index parts 1\<rparr>,
                declarationRange = node_declarationRange node,
                selector = parent_selectors node\<rparr>)
         parseTree"

text \<open>
  The name and value as the specification words them: the text is split at its first
  colon, and both sides are trimmed.
\<close>

definition split_first_colon_spec :: "string \<Rightarrow> string \<times> string" where
  "split_first_colon_spec s =
     (trim (takeWhile (\<lambda>c. c \<noteq> CHR '':'') s), trim (drop 1 (dropWhile (\<lambda>c. c \<noteq> CHR '':'') s)))"

section \<open>The gatherer: \<open>Styles\<close>\<close>

text \<open>
  Arrays are objects too: \<open>this._activeStyles\<close> holds the address of an array, and
  \<open>endStylesCollect\<close> resolves with that address. The state of a \<open>Styles\<close> gatherer
  and of what it shares with its driver:
  \<^item> \<open>arrays\<close>, the array objects by address, and \<open>next_array\<close>, the next free address;
  \<^item> \<open>activeStyles\<close>, \<open>driver\<close> and \<open>artifact\<close>, the fields \<open>this._activeStyles\<close>,
    \<open>this.driver\<close> and \<open>this.artifact\<close>;
  \<^item> \<open>requests\<close>, the \<open>styleHeader\<close> objects of the \<open>CSS.getStyleSheetText\<close>
    commands whose promise is not settled yet;
  \<^item> \<open>commands\<close> and \<open>listeners\<close>, the commands sent to the driver and the events
    a handler of the gatherer is registered for.
\<close>

datatype artifact = Unset | NotCollected | Collected nat

record styles =
  arrays :: "nat \<Rightarrow> stylesheet list"
  next_array :: nat
  activeStyles :: nat
  driver :: "nat option"
  artifact :: artifact
  requests :: "stylesheet list"
  commands :: "string list"
  listeners :: "string list"

text \<open>The constructor allocates the one array \<open>this._activeStyles\<close> ever refers to.\<close>

definition Styles_new :: styles where
  "Styles_new =
     \<lparr>arrays = (\<lambda>_. []), next_array = 1, activeStyles = 0, driver = None, artifact = Unset,
      requests = [], commands = [], listeners = []\<rparr>"

definition active :: "styles \<Rightarrow> stylesheet list" where
  "active s = arrays s (activeStyles s)"

text \<open>
  \<open>onStyleSheetAdded\<close> up to the point where the command is sent: nothing is pushed
  here. Without a driver \<open>this.driver.sendCommand\<close> throws.
\<close>

definition onStyleSheetAdded :: "stylesheet \<Rightarrow> styles \<Rightarrow> js_error + styles" where
  "onStyleSheetAdded styleHeader s =
     (if origin (header styleHeader) \<noteq> ''regular'' then Inr s
      else (case driver s of
              None \<Rightarrow> Inl TypeError
            | Some d \<Rightarrow>
                Inr (s\<lparr>commands := commands s @ [''CSS.getStyleSheetText''],
                       requests := requests s @ [styleHeader]\<rparr>)))"

text \<open>
  The \<open>then\<close> callback of request \<open>i\<close>, run when its promise resolves with the text.
  The parser is a parameter: it returns the declaration nodes of the tree, or \<open>None\<close>
  when it throws, and then the callback ends before the \<open>push\<close>.
\<close>

definition styleSheetText_resolved ::
    "(string \<Rightarrow> declaration_node list option) \<Rightarrow> nat \<Rightarrow> string \<Rightarrow> styles \<Rightarrow> styles" where
  "styleSheetText_resolved parse i text s =
     (if i < length (requests s) then
        (let styleHeader = (requests s ! i)\<lparr>content := Some text\<rparr>;
             s' = s\<lparr>requests := take i (requests s) @ drop (Suc i) (requests s)\<rparr>
         in case parse text of
              None \<Rightarrow> s'
            | Some tree \<Rightarrow>
                (let styleHeader' = styleHeader\<lparr>parsedContent := Some (getCSSPropsInStyleSheet tree)\<rparr>
                 in s'\<lparr>arrays := (arrays s')(activeStyles s' := arrays s' (activeStyles s') @ [styleHeader'])\<rparr>))
      else s)"

text \<open>A promise that is rejected has no handler: the request is dropped.\<close>

definition styleSheetText_rejected :: "nat \<Rightarrow> styles \<Rightarrow> styles" where
  "styleSheetText_rejected i s =
     (if i < length (requests s)
      then s\<lparr>requests := take i (requests s) @ drop (Suc i) (requests s)\<rparr>
      else s)"

text \<open>The loop of \<open>onStyleSheetRemoved\<close>: \<open>splice(i, 1)\<close> at the first match, then \<open>break\<close>.\<close>

fun splice_first :: "string \<Rightarrow> stylesheet list \<Rightarrow> stylesheet list" where
  "splice_first sid [] = []"
| "splice_first sid (x # xs) =
     (if styleSheetId (header x) = sid then xs else x # splice_first sid xs)"

definition onStyleSheetRemoved :: "string \<Rightarrow> styles \<Rightarrow> styles" where
  "onStyleSheetRemoved sid s =
     s\<lparr>arrays := (arrays s)(activeStyles s := splice_first sid (arrays s (activeStyles s)))\<rparr>"

definition beginStylesCollect :: "nat \<Rightarrow> styles \<Rightarrow> styles" where
  "beginStylesCollect d s =
     s\<lparr>driver := Some d,
       commands := commands s @ [''DOM.enable'', ''CSS.enable''],
       listeners := listeners s @ [''CSS.styleSheetAdded'', ''CSS.styleSheetRemoved'']\<rparr>"

definition no_active_stylesheets :: js_error where
  "no_active_stylesheets = Rejected ''No active stylesheets were collected.''"

text \<open>
  \<open>endStylesCollect\<close>: the state it leaves and the promise's outcome, which on success
  is \<open>this._activeStyles\<close>, the address of the array.
\<close>

definition endStylesCollect :: "styles \<Rightarrow> styles \<times> (js_error + nat)" where
  "endStylesCollect s =
     (if driver s = None \<or> length (arrays s (activeStyles s)) = 0
      then (s, Inl no_active_stylesheets)
      else (s\<lparr>listeners := remove1 ''CSS.styleSheetRemoved'' (remove1 ''CSS.styleSheetAdded'' (listeners s)),
              commands := commands s @ [''CSS.disable'']\<rparr>,
            Inr (activeStyles s)))"

definition beforePass :: "nat \<Rightarrow> styles \<Rightarrow> styles" where
  "beforePass d s = beginStylesCollect d s"

text \<open>
  A \<open>Map\<close> as the list of its entries in insertion order: \<open>set\<close> on a key that is
  present replaces the value where the entry stands, and a new key goes to the end.
\<close>

fun Map_set :: "'k \<Rightarrow> 'v \<Rightarrow> ('k \<times> 'v) list \<Rightarrow> ('k \<times> 'v) list" where
  "Map_set k v [] = [(k, v)]"
| "Map_set k v ((k', v') # m) =
     (if k' = k then (k, v) # m else (k', v') # Map_set k v m)"

definition Map_new :: "('k \<times> 'v) list \<Rightarrow> ('k \<times> 'v) list" where
  "Map_new entries = foldl (\<lambda>m (k, v). Map_set k v m) [] entries"

definition Map_values :: "('k \<times> 'v) list \<Rightarrow> 'v list" where
  "Map_values m = map snd m"

text \<open>
  \<open>afterPass\<close>: on success the artifact is a new array, the values of a map from each
  content to a stylesheet; on rejection it is \<open>-1\<close>.
\<close>

definition afterPass :: "styles \<Rightarrow> styles" where
  "afterPass s =
     (case endStylesCollect s of
        (s', Inr a) \<Rightarrow>
          (let stylesheets = arrays s' a;
               m = Map_new (map (\<lambda>x. (content x, x)) stylesheets)
           in s'\<lparr>arrays := (arrays s')(next_array s' := Map_values m),
                 next_array := Suc (next_array s'),
                 artifact := Collected (next_array s')\<rparr>)
      | (s', Inl e) \<Rightarrow> s'\<lparr>artifact := NotCollected\<rparr>)"

text \<open>
  What can happen to a gatherer: a pass begins or ends, the driver calls one of the two
  handlers, or the promise of a request settles. A handler may be called at any time
  here, which covers every delivery a driver makes to a registered handler; an
  exception a handler throws goes to the driver and leaves the state as it was.
\<close>

datatype event =
    BeforePass nat
  | StyleSheetAdded header
  | StyleSheetRemoved string
  | TextFetched nat string
  | FetchFailed nat
  | AfterPass

definition step :: "(string \<Rightarrow> declaration_node list option) \<Rightarrow> styles \<Rightarrow> event \<Rightarrow> styles" where
  "step parse s ev =
     (case ev of
        BeforePass d \<Rightarrow> beforePass d s
      | StyleSheetAdded h \<Rightarrow>
          (case onStyleSheetAdded \<lparr>header = h, content = None, parsedContent = None\<rparr> s of
             Inl e \<Rightarrow> s
           | Inr s' \<Rightarrow> s')
      | StyleSheetRemoved sid \<Rightarrow> onStyleSheetRemoved sid s
      | TextFetched i text \<Rightarrow> styleSheetText_resolved parse i text s
      | FetchFailed i \<Rightarrow> styleSheetText_rejected i s
      | AfterPass \<Rightarrow> afterPass s)"

definition run :: "(string \<Rightarrow> declaration_node list option) \<Rightarrow> styles \<Rightarrow> event list \<Rightarrow> styles" where
  "run parse s evs = foldl (step parse) s evs"

text \<open>
  A record is resolved when it has a content and its parsed content is what
  \<open>getCSSPropsInStyleSheet\<close> makes of the tree the parser builds from that content.
\<close>

definition resolved :: "(string \<Rightarrow> declaration_node list option) \<Rightarrow> stylesheet \<Rightarrow> bool" where
  "resolved parse r \<longleftrightarrow>
     (case content r of
        None \<Rightarrow> False
      | Some text \<Rightarrow>
          (case parse text of
             None \<Rightarrow> False
           | Some tree \<Rightarrow> parsedContent r = Some (getCSSPropsInStyleSheet tree)))"

text \<open>
  What holds of every state a gatherer reaches: the array of active stylesheets is not
  a free address, every pending request is for a stylesheet of regular origin, and every
  active record has regular origin and is resolved.
\<close>

definition tracked :: "(string \<Rightarrow> declaration_node list option) \<Rightarrow> styles \<Rightarrow> bool" where
  "tracked parse s \<longleftrightarrow>
     activeStyles s < next_array s \<and>
     (\<forall>r\<in>set (requests s). origin (header r) = ''regular'') \<and>
     (\<forall>r\<in>set (active s). origin (header r) = ''regular'' \<and> resolved parse r)"

section \<open>Example inputs\<close>

text \<open>A parser that finds no declaration, stylesheet headers, and the records they become.\<close>

definition no_declarations :: "string \<Rightarrow> declaration_node list option" where
  "no_declarations text = Some []"

definition header_a :: header where
  "header_a = \<lparr>styleSheetId = ''1'', origin = ''regular'', sourceURL = ''a.css''\<rparr>"

definition header_b :: header where
  "header_b = \<lparr>styleSheetId = ''2'', origin = ''regular'', sourceURL = ''b.css''\<rparr>"

definition header_c :: header where
  "header_c = \<lparr>styleSheetId = ''4'', origin = ''regular'', sourceURL = ''c.css''\<rparr>"

definition header_injected :: header where
  "header_injected = \<lparr>styleSheetId = ''3'', origin = ''injected'', sourceURL = ''''\<rparr>"

definition sheet_a :: stylesheet where
  "sheet_a = \<lparr>header = header_a, content = Some ''a{}'', parsedContent = Some []\<rparr>"

definition sheet_b :: stylesheet where
  "sheet_b = \<lparr>header = header_b, content = Some ''b{}'', parsedContent = Some []\<rparr>"

definition sheet_c :: stylesheet where
  "sheet_c = \<lparr>header = header_c, content = Some ''a{}'', parsedContent = Some []\<rparr>"

text \<open>
  A session in which an injected stylesheet and a regular one are added, the injected
  one is removed, and the text of the regular one arrives.
\<close>

definition session_trace :: "event list" where
  "session_trace =
     [BeforePass 0, StyleSheetAdded header_injected, StyleSheetAdded header_a,
      StyleSheetRemoved ''3'', TextFetched 0 ''a{}'']"

text \<open>A session in which the text of the second stylesheet has not arrived yet.\<close>

definition racing_trace :: "event list" where
  "racing_trace =
     [BeforePass 0, StyleSheetAdded header_a, StyleSheetAdded header_b, TextFetched 0 ''a{}'']"

text \<open>A session in which the first and the third stylesheet have the same text.\<close>

definition duplicate_trace :: "event list" where
  "duplicate_trace =
     [BeforePass 0, StyleSheetAdded header_a, StyleSheetAdded header_b, StyleSheetAdded header_c,
      TextFetched 0 ''a{}'', TextFetched 0 ''b{}'', TextFetched 0 ''a{}'']"

text \<open>A declaration over three lines, and its range as the parser reports it.\<close>

definition margin_css :: string where
  "margin_css = ''div {\<newline>  margin: 1px\<newline>    2px\<newline>    3px;\<newline>}''"

definition margin_decl :: css_declaration where
  "margin_decl =
     \<lparr>property = \<lparr>name = Some ''margin'', val = Some ''1px\<newline>    2px\<newline>    3px''\<rparr>,
      declarationRange = \<lparr>startLine = 1, startColumn = 2, endLine = 3, endColumn = 7\<rparr>,
      selector = ''div''\<rparr>"

text \<open>The stylesheet of the \<open>display: box\<close> example.\<close>

definition box_decls :: "css_declaration list" where
  "box_decls =
     [\<lparr>property = \<lparr>name = Some ''display'', val = Some ''box''\<rparr>,
       declarationRange = \<lparr>startLine = 0, startColumn = 4, endLine = 0, endColumn = 16\<rparr>,
       selector = ''a''\<rparr>,
      \<lparr>property = \<lparr>name = Some ''display'', val = Some ''flex''\<rparr>,
       declarationRange = \<lparr>startLine = 0, startColumn = 18, endLine = 0, endColumn = 31\<rparr>,
       selector = ''a''\<rparr>,
      \<lparr>property = \<lparr>name = Some ''color'', val = Some ''box''\<rparr>,
       declarationRange = \<lparr>startLine = 0, startColumn = 33, endLine = 0, endColumn = 43\<rparr>,
       selector = ''a''\<rparr>]"

definition box_sheet :: stylesheet where
  "box_sheet =
     \<lparr>header = \<lparr>styleSheetId = ''5'', origin = ''regular'', sourceURL = ''box.css''\<rparr>,
      content = Some ''a { display: box; display: flex; color: box }'',
      parsedContent = Some box_decls\<rparr>"

text \<open>A stylesheet with the values \<open>flex\<close> and \<open>inline-flex\<close>.\<close>

definition flex_decl :: css_declaration where
  "flex_decl =
     \<lparr>property = \<lparr>name = Some ''display'', val = Some ''flex''\<rparr>,
      declarationRange = \<lparr>startLine = 0, startColumn = 4, endLine = 0, endColumn = 17\<rparr>,
      selector = ''a''\<rparr>"

definition inline_flex_decl :: css_declaration where
  "inline_flex_decl =
     \<lparr>property = \<lparr>name = Some ''display'', val = Some ''inline-flex''\<rparr>,
      declarationRange = \<lparr>startLine = 0, startColumn = 19, endLine = 0, endColumn = 39\<rparr>,
      selector = ''a''\<rparr>"

definition flex_sheet :: stylesheet where
  "flex_sheet =
     \<lparr>header = \<lparr>styleSheetId = ''6'', origin = ''regular'', sourceURL = ''flex.css''\<rparr>,
      content = Some ''a { display: flex; display: inline-flex }'',
      parsedContent = Some [flex_decl, inline_flex_decl]\<rparr>"

text \<open>The store in which every address holds that stylesheet.\<close>

definition flex_store :: store where
  "flex_store = (\<lambda>_. flex_sheet)"

text \<open>A declaration node with two more colons in its value, and one with no colon.\<close>

definition url_node :: declaration_node where
  "url_node =
     \<lparr>node_text = ''background: url(http://a.b/c.png)'',
      node_declarationRange = \<lparr>startLine = 0, startColumn = 4, endLine = 0, endColumn = 37\<rparr>,
      parent_selectors = ''a''\<rparr>"



definition no_colon_sheet :: stylesheet where
  "no_colon_sheet =
     \<lparr>header = \<lparr>styleSheetId = ''7'', origin = ''regular'', sourceURL = ''c.css''\<rparr>,
      content = Some ''a { display: box; color }'',
      parsedContent = Some (getCSSPropsInStyleSheet
        [\<lparr>node_text = ''display: box'',
          node_declarationRange = \<lparr>startLine = 0, startColumn = 4, endLine = 0, endColumn = 16\<rparr>,
          parent_selectors = ''a''\<rparr>,
         \<lparr>node_text = ''color'',
          node_declarationRange = \<lparr>startLine = 0, startColumn = 18, endLine = 0, endColumn = 23\<rparr>,
          parent_selectors = ''a''\<rparr>])\<rparr>"

definition no_colon_store :: store where
  "no_colon_store = (\<lambda>_. no_colon_sheet)"

section \<open>Properties of the audits\<close>

subsection \<open>Prefix test\<close>

lemma starts_with_prefix: "starts_with hay needle = prefix needle hay"
  by (induction hay needle rule: starts_with.induct) auto

lemma indexOf_from_range: "indexOf_from i hay needle = -1 \<or> i \<le> indexOf_from i hay needle"
proof (induction hay arbitrary: i)
  case Nil
  then show ?case by simp
next
  case (Cons h hs)
  show ?case
  proof (cases "starts_with (h # hs) needle")
    case True
    then show ?thesis by simp
  next
    case False
    with Cons [of "i + 1"] show ?thesis by auto
  qed
qed

lemma indexOf_zero_iff_prefix: "indexOf hay needle = 0 \<longleftrightarrow> prefix needle hay"
proof (cases hay)
  case Nil
  then show ?thesis by (simp add: indexOf_def)
next
  case (Cons h hs)
  show ?thesis
  proof (cases "starts_with (h # hs) needle")
    case True
    with Cons show ?thesis by (simp add: indexOf_def starts_with_prefix)
  next
    case False
    have "indexOf_from 1 hs needle \<noteq> 0"
      using indexOf_from_range [of 1 hs needle] by auto
    with False Cons show ?thesis
      by (simp add: indexOf_def starts_with_prefix)
  qed
qed

subsection \<open>The two audits filter alike\<close>

lemma usedProperty_opt_eq:
  "map_sum id (\<lambda>r. r = Some True) (usedProperty_opt n v item) = usedProperty n v item"
  by (auto simp: usedProperty_opt_def usedProperty_def Let_def split: option.splits)

lemma getPropertyUse_eq:
  "getPropertyUse h ss n v = stylesheetsThatUsedProperty h ss n v"
  by (simp add: getPropertyUse_def stylesheetsThatUsedProperty_def usedProperty_opt_eq)

lemma usedProperty_opt_True:
  "usedProperty_opt n v item = Inr (Some True) \<longleftrightarrow> usedProperty n v item = Inr True"
  by (auto simp: usedProperty_opt_def usedProperty_def Let_def split: option.splits)

subsection \<open>A callback that does not throw\<close>

lemma filter_throwing_total:
  "\<forall>d\<in>set items. f d = Inr (g d) \<Longrightarrow> filter_throwing f items = Inr (filter g items)"
  by (induction items) auto

lemma filter_sheets_total:
  "\<forall>s\<in>set ss. \<exists>items. parsedContent (h s) = Some items \<and> (\<forall>d\<in>set items. f d = Inr (g d)) \<Longrightarrow>
   filter_sheets f h ss =
     (\<lambda>s. if s \<in> set ss then (h s)\<lparr>parsedContent := Some (filter g (the (parsedContent (h s))))\<rparr> else h s,
      Inr (filter (\<lambda>s. filter g (the (parsedContent (h s))) \<noteq> []) ss))"
proof (induction ss arbitrary: h)
  case Nil
  then show ?case by simp
next
  case (Cons s ss)
  from Cons.prems obtain items where
    items: "parsedContent (h s) = Some items" "\<forall>d\<in>set items. f d = Inr (g d)"
    by auto
  let ?kept = "filter g items"
  let ?h' = "h(s := (h s)\<lparr>parsedContent := Some ?kept\<rparr>)"
  have ft: "filter_throwing f items = Inr ?kept"
    using items(2) by (rule filter_throwing_total)
  have pre: "\<forall>x\<in>set ss. \<exists>its. parsedContent (?h' x) = Some its \<and> (\<forall>d\<in>set its. f d = Inr (g d))"
    using Cons.prems items by auto
  have st: "(\<lambda>x. if x \<in> set ss then (?h' x)\<lparr>parsedContent := Some (filter g (the (parsedContent (?h' x))))\<rparr> else ?h' x)
            = (\<lambda>x. if x \<in> set (s # ss) then (h x)\<lparr>parsedContent := Some (filter g (the (parsedContent (h x))))\<rparr> else h x)"
    using items(1) by (auto simp: fun_eq_iff)
  have out: "filter (\<lambda>x. filter g (the (parsedContent (?h' x))) \<noteq> []) ss
             = filter (\<lambda>x. filter g (the (parsedContent (h x))) \<noteq> []) ss"
    using items(1) by (intro filter_cong) auto
  have ih: "filter_sheets f ?h' ss =
     (\<lambda>x. if x \<in> set (s # ss) then (h x)\<lparr>parsedContent := Some (filter g (the (parsedContent (h x))))\<rparr> else h x,
      Inr (filter (\<lambda>x. filter g (the (parsedContent (h x))) \<noteq> []) ss))"
    using Cons.IH [OF pre] unfolding st out .
  show ?case
    using ih items(1) ft by (simp add: Let_def del: fun_upd_apply set_simps)
qed

lemma usedProperty_value_only:
  "\<not> truthy n \<Longrightarrow> q \<noteq> [] \<Longrightarrow>
   usedProperty n (Some q) d =
     (case val (property d) of None \<Rightarrow> Inl TypeError | Some v \<Rightarrow> Inr (prefix q v))"
  by (simp add: usedProperty_def Let_def truthy_def toString_arg_def indexOf_zero_iff_prefix
      split: option.splits)

subsection \<open>A callback that throws\<close>








subsection \<open>The excerpt of a declaration over several lines\<close>

text \<open>
  C1. The claim: for a range with \<open>startLine < endLine\<close> the excerpt is the start line
  from \<open>startColumn\<close>, the lines between, and the end line up to \<open>endColumn\<close>, joined by
  line feeds. For the three-line \<open>margin\<close> declaration that is the text of the
  declaration. The code takes the texts of the two lines as the bounds of
  \<open>lines.slice\<close>; neither text is a number, both bounds are 0, the slice is empty and
  so is the rule put into the block.
\<close>

theorem multiline_rule_is_empty:
  "multiline_excerpt_spec margin_css (declarationRange margin_decl)
     = ''margin: 1px\<newline>    2px\<newline>    3px'' \<and>
   getFormattedStyleContent_rule margin_css margin_decl = Inr [] \<and>
   getFormattedStyleContent margin_css margin_decl
     = Inr ''\<newline>div {\<newline>  \<newline>} (line: 1, row: 2, col: 7)''"
  by code_simp

subsection \<open>The records passed to the filter\<close>

text \<open>
  C2. The claim: \<open>filterByProperty\<close> leaves each input record's declarations as they
  were. The code copies the array with \<open>slice(0)\<close> and then assigns the filtered
  declarations to \<open>s.parsedContent\<close> of the record in the store: after the query for
  \<open>display: box\<close> the record passed in has one declaration where it had three.
\<close>

theorem filter_overwrites_the_input_record:
  "parsedContent ((\<lambda>_. box_sheet) (0::nat)) = Some box_decls \<and>
   length box_decls = 3 \<and>
   snd (stylesheetsThatUsedProperty (\<lambda>_. box_sheet) [0] (Some ''display'') (Some ''box'')) = Inr [0] \<and>
   parsedContent (fst (stylesheetsThatUsedProperty (\<lambda>_. box_sheet) [0] (Some ''display'') (Some ''box'')) 0)
     = Some [hd box_decls] \<and>
   parsedContent (fst (getPropertyUse (\<lambda>_. box_sheet) [0] (Some ''display'') (Some ''box'')) 0)
     = Some [hd box_decls]"
  by code_simp

subsection \<open>Value-only queries\<close>

text \<open>
  The claim C9 as it stands: with a value argument and no name argument a declaration
  matches exactly when its value starts with the queried value. The empty string is a
  value argument, and every value starts with it; but the guard \<open>!propName && !propVal\<close>
  takes it as no argument, the call returns the empty array, and in the callback the
  declaration \<open>display: flex\<close> does not match.
\<close>

theorem empty_value_matches_nothing:
  "val (property flex_decl) = Some ''flex'' \<and>
   prefix [] ''flex'' \<and>
   usedProperty None (Some []) flex_decl = Inr False \<and>
   usedProperty_opt None (Some []) flex_decl = Inr None \<and>
   snd (stylesheetsThatUsedProperty flex_store [0] None (Some [])) = Inr [] \<and>
   snd (getPropertyUse flex_store [0] None (Some [])) = Inr []"
  by (simp add: flex_decl_def usedProperty_def usedProperty_opt_def truthy_def
      stylesheetsThatUsedProperty_def getPropertyUse_def)

text \<open>
  C9, amended. With no name (none, or the empty string, which is falsy) and a value
  \<open>q\<close> that is not empty, a declaration passes the callback of either audit exactly
  when it has a value and \<open>q\<close> is a prefix of it. When every declaration of every
  record has a value, the call leaves in each record the declarations whose value starts
  with \<open>q\<close>, in their order, and returns the records that keep at least one, in
  their order.
\<close>

theorem value_only_query_matches_by_prefix:
  assumes "\<not> truthy propName" and "q \<noteq> []"
  shows "(usedProperty propName (Some q) d = Inr True \<longleftrightarrow>
            (\<exists>v. val (property d) = Some v \<and> prefix q v)) \<and>
         (usedProperty_opt propName (Some q) d = Inr (Some True) \<longleftrightarrow>
            (\<exists>v. val (property d) = Some v \<and> prefix q v)) \<and>
         ((\<forall>s\<in>set stylesheets. \<exists>items. parsedContent (h s) = Some items \<and>
              (\<forall>d\<in>set items. val (property d) \<noteq> None)) \<longrightarrow>
          stylesheetsThatUsedProperty h stylesheets propName (Some q) =
            (\<lambda>s. if s \<in> set stylesheets
                  then (h s)\<lparr>parsedContent :=
                         Some (filter (\<lambda>d. prefix q (the (val (property d)))) (the (parsedContent (h s))))\<rparr>
                  else h s,
             Inr (filter (\<lambda>s. filter (\<lambda>d. prefix q (the (val (property d)))) (the (parsedContent (h s))) \<noteq> [])
                    stylesheets)) \<and>
          getPropertyUse h stylesheets propName (Some q) =
            stylesheetsThatUsedProperty h stylesheets propName (Some q))"
proof -
  let ?g = "\<lambda>d. prefix q (the (val (property d)))"
  have cb: "\<And>d. usedProperty propName (Some q) d =
      (case val (property d) of None \<Rightarrow> Inl TypeError | Some v \<Rightarrow> Inr (prefix q v))"
    using assms by (rule usedProperty_value_only)
  have one: "usedProperty propName (Some q) d = Inr True \<longleftrightarrow>
      (\<exists>v. val (property d) = Some v \<and> prefix q v)"
    unfolding cb by (cases "val (property d)") auto
  have all: "stylesheetsThatUsedProperty h stylesheets propName (Some q) =
        (\<lambda>s. if s \<in> set stylesheets
              then (h s)\<lparr>parsedContent := Some (filter ?g (the (parsedContent (h s))))\<rparr>
              else h s,
         Inr (filter (\<lambda>s. filter ?g (the (parsedContent (h s))) \<noteq> []) stylesheets))"
    if pre: "\<forall>s\<in>set stylesheets. \<exists>items. parsedContent (h s) = Some items \<and>
              (\<forall>d\<in>set items. val (property d) \<noteq> None)"
  proof -
    have "\<forall>s\<in>set stylesheets. \<exists>items. parsedContent (h s) = Some items \<and>
            (\<forall>d\<in>set items. usedProperty propName (Some q) d = Inr (?g d))"
    proof
      fix s assume "s \<in> set stylesheets"
      with pre obtain items where
        i: "parsedContent (h s) = Some items" "\<forall>d\<in>set items. val (property d) \<noteq> None" by blast
      have "\<forall>d\<in>set items. usedProperty propName (Some q) d = Inr (?g d)"
        using i(2) cb by auto
      with i(1) show "\<exists>items. parsedContent (h s) = Some items \<and>
            (\<forall>d\<in>set items. usedProperty propName (Some q) d = Inr (?g d))" by blast
    qed
    then have "filter_sheets (usedProperty propName (Some q)) h stylesheets =
         (\<lambda>s. if s \<in> set stylesheets
               then (h s)\<lparr>parsedContent := Some (filter ?g (the (parsedContent (h s))))\<rparr>
               else h s,
          Inr (filter (\<lambda>s. filter ?g (the (parsedContent (h s))) \<noteq> []) stylesheets))"
      by (rule filter_sheets_total)
    moreover have "truthy (Some q)" using assms(2) by (simp add: truthy_def)
    ultimately show ?thesis
      by (simp add: stylesheetsThatUsedProperty_def)
  qed
  show ?thesis
    using one all by (simp add: usedProperty_opt_True getPropertyUse_eq)
qed

theorem value_only_query_matches_by_prefix_witness:
  "\<not> truthy None \<and> ''fle'' \<noteq> [] \<and>
   usedProperty None (Some ''fle'') flex_decl = Inr True \<and>
   usedProperty None (Some ''fle'') inline_flex_decl \<noteq> Inr True \<and>
   snd (stylesheetsThatUsedProperty (\<lambda>_. flex_sheet) [0] None (Some ''fle'')) = Inr [0] \<and>
   parsedContent (fst (stylesheetsThatUsedProperty (\<lambda>_. flex_sheet) [0] None (Some ''fle'')) 0)
     = Some [flex_decl]"
proof -
  have a: "\<not> truthy None" by (simp add: truthy_def)
  have b: "''fle'' \<noteq> []" by simp
  have c: "\<forall>s\<in>set [0::nat]. \<exists>items. parsedContent ((\<lambda>_. flex_sheet) s) = Some items \<and>
            (\<forall>d\<in>set items. val (property d) \<noteq> None)"
    by (simp add: flex_sheet_def flex_decl_def inline_flex_decl_def)
  have v: "val (property flex_decl) = Some ''flex''"
    "val (property inline_flex_decl) = Some ''inline-flex''"
    by (simp_all add: flex_decl_def inline_flex_decl_def)
  show ?thesis
    using value_only_query_matches_by_prefix [OF a b, of flex_decl "[0]" "\<lambda>_. flex_sheet"]
      value_only_query_matches_by_prefix [OF a b, of inline_flex_decl "[0]" "\<lambda>_. flex_sheet"]
      a c v
    by (simp add: flex_sheet_def)
qed

subsection \<open>A declaration without a value\<close>



section \<open>Properties of the gatherer\<close>

subsection \<open>Name and value of a declaration\<close>

text \<open>
  C5. The claim: the value recorded for a declaration is the trimmed text after the
  first colon, later colons included. For \<open>background: url(http://a.b/c.png)\<close> that
  is \<open>url(http://a.b/c.png)\<close>. The code splits at every colon and keeps the second
  piece: the value it records is \<open>url(http\<close>.
\<close>

theorem value_is_cut_at_the_second_colon:
  "split_first_colon_spec (node_text url_node) = (''background'', ''url(http://a.b/c.png)'') \<and>
   map property (getCSSPropsInStyleSheet [url_node])
     = [\<lparr>name = Some ''background'', val = Some ''url(http''\<rparr>]"
  by code_simp

subsection \<open>The map from content to stylesheet\<close>

lemma Map_set_keys:
  "map fst (Map_set k v m) = (if k \<in> set (map fst m) then map fst m else map fst m @ [k])"
  by (induction m) force+

lemma Map_set_lookup: "map_of (Map_set k v m) = (map_of m)(k \<mapsto> v)"
  by (induction m) (auto simp: fun_eq_iff)

lemma Map_fold_keys:
  "distinct (map fst m) \<Longrightarrow> distinct (map fst (foldl (\<lambda>m (k, v). Map_set k v m) m es))"
  by (induction es arbitrary: m) (auto simp: Map_set_keys)

lemma Map_fold_lookup:
  "map_of (foldl (\<lambda>m (k, v). Map_set k v m) m es) = map_of m ++ map_of (rev es)"
proof (induction es arbitrary: m)
  case Nil
  then show ?case by simp
next
  case (Cons e es)
  obtain k v where e: "e = (k, v)" by (cases e)
  show ?case
    unfolding e by (simp add: Cons.IH Map_set_lookup map_add_def fun_eq_iff split: option.splits)
qed

lemma last_occurrence_lookup:
  "map_of (rev (map (\<lambda>x. (f x, x)) xs)) c =
     (if filter (\<lambda>x. f x = c) xs = [] then None else Some (last (filter (\<lambda>x. f x = c) xs)))"
  by (induction xs rule: rev_induct) auto

lemma Map_new_distinct: "distinct (map fst (Map_new es))"
  unfolding Map_new_def by (rule Map_fold_keys) simp

lemma Map_new_lookup: "map_of (Map_new es) = map_of (rev es)"
  unfolding Map_new_def by (simp add: Map_fold_lookup)

lemma Map_new_entry:
  "(c, r) \<in> set (Map_new (map (\<lambda>x. (f x, x)) xs)) \<longleftrightarrow>
     filter (\<lambda>x. f x = c) xs \<noteq> [] \<and> r = last (filter (\<lambda>x. f x = c) xs)"
proof -
  have "(c, r) \<in> set (Map_new (map (\<lambda>x. (f x, x)) xs)) \<longleftrightarrow>
        map_of (Map_new (map (\<lambda>x. (f x, x)) xs)) c = Some r"
    using Map_new_distinct [of "map (\<lambda>x. (f x, x)) xs"] by simp
  then show ?thesis
    by (auto simp: Map_new_lookup last_occurrence_lookup)
qed

lemma last_filter_key:
  assumes "filter (\<lambda>x. f x = c) xs \<noteq> []"
  shows "f (last (filter (\<lambda>x. f x = c) xs)) = c"
proof -
  from assms have "last (filter (\<lambda>x. f x = c) xs) \<in> set (filter (\<lambda>x. f x = c) xs)"
    by (rule last_in_set)
  then show ?thesis by simp
qed

lemma Map_new_entry_key:
  "(c, r) \<in> set (Map_new (map (\<lambda>x. (f x, x)) xs)) \<Longrightarrow> f r = c"
  by (simp add: Map_new_entry last_filter_key)

lemma Map_values_keys:
  "map f (Map_values (Map_new (map (\<lambda>x. (f x, x)) xs))) = map fst (Map_new (map (\<lambda>x. (f x, x)) xs))"
proof -
  have "\<forall>e\<in>set (Map_new (map (\<lambda>x. (f x, x)) xs)). f (snd e) = fst e"
  proof
    fix e assume e: "e \<in> set (Map_new (map (\<lambda>x. (f x, x)) xs))"
    obtain c r where cr: "e = (c, r)" by (cases e)
    with e have "f r = c" using Map_new_entry_key [of c r f xs] by simp
    with cr show "f (snd e) = fst e" by simp
  qed
  then show ?thesis
    unfolding Map_values_def by simp
qed

lemma Map_values_distinct: "distinct (map f (Map_values (Map_new (map (\<lambda>x. (f x, x)) xs))))"
  by (simp add: Map_values_keys Map_new_distinct)

lemma Map_values_last:
  assumes "r \<in> set (Map_values (Map_new (map (\<lambda>x. (f x, x)) xs)))"
  shows "r = last (filter (\<lambda>x. f x = f r) xs)"
proof -
  from assms obtain c where c: "(c, r) \<in> set (Map_new (map (\<lambda>x. (f x, x)) xs))"
    by (auto simp: Map_values_def)
  then have "f r = c" by (rule Map_new_entry_key)
  with c show ?thesis by (simp add: Map_new_entry)
qed

lemma Map_values_contents:
  "f ` set (Map_values (Map_new (map (\<lambda>x. (f x, x)) xs))) = f ` set xs"
proof -
  have "set (map fst (Map_new (map (\<lambda>x. (f x, x)) xs))) = f ` set xs"
  proof (intro set_eqI iffI)
    fix c assume "c \<in> set (map fst (Map_new (map (\<lambda>x. (f x, x)) xs)))"
    then obtain r where "(c, r) \<in> set (Map_new (map (\<lambda>x. (f x, x)) xs))" by auto
    then have "filter (\<lambda>x. f x = c) xs \<noteq> []" by (simp add: Map_new_entry)
    then show "c \<in> f ` set xs" by (auto simp: filter_empty_conv)
  next
    fix c assume "c \<in> f ` set xs"
    then have "filter (\<lambda>x. f x = c) xs \<noteq> []" by (auto simp: filter_empty_conv)
    then have "(c, last (filter (\<lambda>x. f x = c) xs)) \<in> set (Map_new (map (\<lambda>x. (f x, x)) xs))"
      by (simp add: Map_new_entry)
    then show "c \<in> set (map fst (Map_new (map (\<lambda>x. (f x, x)) xs)))" by force
  qed
  then show ?thesis
    using Map_values_keys [of f xs] by (metis list.set_map)
qed

subsection \<open>Steps of a gatherer\<close>

lemma run_Nil: "run parse s [] = s"
  by (simp add: run_def)

lemma run_Cons: "run parse s (ev # evs) = run parse (step parse s ev) evs"
  by (simp add: run_def)

lemma set_splice_first: "set (splice_first sid xs) \<subseteq> set xs"
  by (induction xs) auto

lemma set_without: "set (take i xs @ drop (Suc i) xs) \<subseteq> set xs"
  using set_take_subset [of i xs] set_drop_subset [of "Suc i" xs] by auto

lemma activeStyles_step: "activeStyles (step parse s ev) = activeStyles s"
  by (cases ev)
    (auto simp: step_def beforePass_def beginStylesCollect_def onStyleSheetAdded_def
      onStyleSheetRemoved_def styleSheetText_resolved_def styleSheetText_rejected_def
      afterPass_def endStylesCollect_def Let_def split: option.splits sum.splits)

lemma activeStyles_run: "activeStyles (run parse s evs) = activeStyles s"
  unfolding run_def by (induction evs arbitrary: s) (simp_all add: activeStyles_step)

lemma driver_step:
  "driver (step parse s ev) = (case ev of BeforePass d \<Rightarrow> Some d | _ \<Rightarrow> driver s)"
  by (cases ev)
    (auto simp: step_def beforePass_def beginStylesCollect_def onStyleSheetAdded_def
      onStyleSheetRemoved_def styleSheetText_resolved_def styleSheetText_rejected_def
      afterPass_def endStylesCollect_def Let_def split: option.splits sum.splits)

lemma driver_run:
  "driver (run parse s evs) = None \<longleftrightarrow> driver s = None \<and> (\<forall>d. BeforePass d \<notin> set evs)"
proof (induction evs arbitrary: s)
  case Nil
  then show ?case by (simp add: run_Nil)
next
  case (Cons ev evs)
  show ?case
    unfolding run_Cons Cons.IH driver_step by (cases ev) auto
qed

lemma resolved_iff:
  "resolved parse r \<longleftrightarrow>
     (\<exists>text tree. content r = Some text \<and> parse text = Some tree \<and>
        parsedContent r = Some (getCSSPropsInStyleSheet tree))"
proof (cases "content r")
  case None
  then show ?thesis by (simp add: resolved_def)
next
  case (Some t)
  then show ?thesis by (cases "parse t") (simp_all add: resolved_def)
qed

lemma tracked_new: "tracked parse Styles_new"
  by (simp add: tracked_def Styles_new_def active_def)

lemma tracked_added:
  "tracked parse s \<Longrightarrow>
   tracked parse (case onStyleSheetAdded \<lparr>header = h, content = None, parsedContent = None\<rparr> s of
                    Inl e \<Rightarrow> s | Inr s' \<Rightarrow> s')"
  by (auto simp: tracked_def onStyleSheetAdded_def active_def split: option.splits)

lemma tracked_removed: "tracked parse s \<Longrightarrow> tracked parse (onStyleSheetRemoved sid s)"
  using set_splice_first by (fastforce simp: tracked_def onStyleSheetRemoved_def active_def)

lemma tracked_rejected: "tracked parse s \<Longrightarrow> tracked parse (styleSheetText_rejected i s)"
  using set_without [of i "requests s"]
  by (auto simp: tracked_def styleSheetText_rejected_def active_def)

lemma tracked_resolved:
  assumes t: "tracked parse s"
  shows "tracked parse (styleSheetText_resolved parse i text s)"
proof (cases "i < length (requests s)")
  case False
  with t show ?thesis by (simp add: styleSheetText_resolved_def)
next
  case True
  then have "requests s ! i \<in> set (requests s)" by simp
  with t have reg: "origin (header (requests s ! i)) = ''regular''" by (simp add: tracked_def)
  show ?thesis
    using t True reg set_without [of i "requests s"]
    by (auto simp: tracked_def resolved_def styleSheetText_resolved_def active_def Let_def
        split: option.splits)
qed

lemma tracked_begin: "tracked parse s \<Longrightarrow> tracked parse (beginStylesCollect d s)"
  by (simp add: tracked_def beginStylesCollect_def active_def)

lemma tracked_afterPass: "tracked parse s \<Longrightarrow> tracked parse (afterPass s)"
  by (auto simp: tracked_def afterPass_def endStylesCollect_def active_def Let_def)

lemma tracked_step: "tracked parse s \<Longrightarrow> tracked parse (step parse s ev)"
  by (cases ev)
    (simp_all add: step_def beforePass_def tracked_begin tracked_added tracked_removed
      tracked_resolved tracked_rejected tracked_afterPass)

lemma tracked_run: "tracked parse s \<Longrightarrow> tracked parse (run parse s evs)"
  unfolding run_def by (induction evs arbitrary: s) (simp_all add: tracked_step)

lemma session_trace_active: "active (run no_declarations Styles_new session_trace) = [sheet_a]"
  by code_simp

lemma first_pass_active:
  "active (run no_declarations Styles_new (session_trace @ [AfterPass])) = [sheet_a]"
  by code_simp

lemma first_pass_requests:
  "requests (run no_declarations Styles_new (session_trace @ [AfterPass])) = []"
  by code_simp

lemma racing_trace_end:
  "snd (endStylesCollect (run no_declarations Styles_new racing_trace)) = Inr 0"
  by code_simp

lemma duplicate_trace_end:
  "snd (endStylesCollect (run no_declarations Styles_new duplicate_trace)) = Inr 0"
  by code_simp

lemma duplicate_trace_active:
  "active (run no_declarations Styles_new duplicate_trace) = [sheet_a, sheet_b, sheet_c]"
  by code_simp

lemma duplicate_trace_next: "next_array (run no_declarations Styles_new duplicate_trace) = 1"
  by code_simp

subsection \<open>One stylesheet for each content\<close>

text \<open>
  C3. When the session ends with success, the artifact is a new array in which no two
  records have the same content, every content of an active record occurs, and each
  record is the last of the active records with its content; the active records stand
  in the order in which their texts arrived.
\<close>

theorem afterPass_keeps_last_of_each_content:
  assumes "snd (endStylesCollect s) = Inr a"
  shows "artifact (afterPass s) = Collected (next_array s) \<and>
         distinct (map content (arrays (afterPass s) (next_array s))) \<and>
         content ` set (arrays (afterPass s) (next_array s)) = content ` set (active s) \<and>
         (\<forall>r\<in>set (arrays (afterPass s) (next_array s)).
            r = last (filter (\<lambda>x. content x = content r) (active s)))"
proof -
  from assms obtain d where ok: "driver s = Some d" "arrays s (activeStyles s) \<noteq> []"
    by (auto simp: endStylesCollect_def split: if_splits)
  then have out: "arrays (afterPass s) (next_array s) =
      Map_values (Map_new (map (\<lambda>x. (content x, x)) (active s)))"
    and art: "artifact (afterPass s) = Collected (next_array s)"
    by (simp_all add: afterPass_def endStylesCollect_def active_def Let_def)
  show ?thesis
    unfolding out using art Map_values_distinct [of content "active s"]
      Map_values_contents [of content "active s"] Map_values_last [of _ content "active s"]
    by blast
qed

theorem afterPass_keeps_last_of_each_content_witness:
  "snd (endStylesCollect (run no_declarations Styles_new duplicate_trace)) = Inr 0 \<and>
   active (run no_declarations Styles_new duplicate_trace) = [sheet_a, sheet_b, sheet_c] \<and>
   content sheet_a = content sheet_c \<and>
   artifact (afterPass (run no_declarations Styles_new duplicate_trace)) = Collected 1 \<and>
   arrays (afterPass (run no_declarations Styles_new duplicate_trace)) 1 = [sheet_c, sheet_b]"
proof -
  have out: "arrays (afterPass (run no_declarations Styles_new duplicate_trace)) 1 = [sheet_c, sheet_b]"
    by code_simp
  have same: "content sheet_a = content sheet_c"
    by (simp add: sheet_a_def sheet_c_def)
  show ?thesis
    using afterPass_keeps_last_of_each_content [OF duplicate_trace_end]
      duplicate_trace_end duplicate_trace_active duplicate_trace_next out same
    by simp
qed

subsection \<open>The records of the active collection\<close>

text \<open>
  C8. In every state a gatherer reaches, every record of the active collection has
  regular origin, a content, and as parsed content the declarations of the tree parsed
  from that content. A call of the handler for an added stylesheet leaves the active
  collection as it is, and for a stylesheet that is not of regular origin it leaves the
  whole state as it is, so that nothing later can bring that stylesheet in.
\<close>

theorem active_records_are_regular_and_resolved:
  "(\<forall>r\<in>set (active (run parse Styles_new evs)).
      origin (header r) = ''regular'' \<and>
      (\<exists>text tree. content r = Some text \<and> parse text = Some tree \<and>
         parsedContent r = Some (getCSSPropsInStyleSheet tree))) \<and>
   active (step parse (run parse Styles_new evs) (StyleSheetAdded h)) = active (run parse Styles_new evs) \<and>
   (origin h \<noteq> ''regular'' \<longrightarrow>
      step parse (run parse Styles_new evs) (StyleSheetAdded h) = run parse Styles_new evs)"
proof -
  have "tracked parse (run parse Styles_new evs)"
    using tracked_new by (rule tracked_run)
  then have "\<forall>r\<in>set (active (run parse Styles_new evs)).
      origin (header r) = ''regular'' \<and> resolved parse r"
    by (simp add: tracked_def)
  then have "\<forall>r\<in>set (active (run parse Styles_new evs)).
      origin (header r) = ''regular'' \<and>
      (\<exists>text tree. content r = Some text \<and> parse text = Some tree \<and>
         parsedContent r = Some (getCSSPropsInStyleSheet tree))"
    by (simp add: resolved_iff)
  then show ?thesis
    by (auto simp: step_def onStyleSheetAdded_def active_def split: option.splits)
qed

theorem active_records_are_regular_and_resolved_witness:
  "active (run no_declarations Styles_new session_trace) = [sheet_a] \<and>
   origin (header sheet_a) = ''regular'' \<and>
   (\<exists>text tree. content sheet_a = Some text \<and> no_declarations text = Some tree \<and>
      parsedContent sheet_a = Some (getCSSPropsInStyleSheet tree)) \<and>
   active (step no_declarations (run no_declarations Styles_new session_trace) (StyleSheetAdded header_b))
     = [sheet_a] \<and>
   origin header_injected \<noteq> ''regular'' \<and>
   step no_declarations (run no_declarations Styles_new session_trace) (StyleSheetAdded header_injected)
     = run no_declarations Styles_new session_trace"
proof -
  have inj: "origin header_injected \<noteq> ''regular''" by (simp add: header_injected_def)
  show ?thesis
    using active_records_are_regular_and_resolved [of no_declarations session_trace header_b]
      active_records_are_regular_and_resolved [of no_declarations session_trace header_injected]
      inj session_trace_active
    by simp
qed

subsection \<open>The end of a session\<close>

text \<open>
  The claim C7 as it stands: the rejection of \<open>endStylesCollect\<close> is the only error
  the subsystem ever surfaces to its caller. A query for the value \<open>box\<close> over a
  stylesheet with a declaration that has no value ends, in either audit, with a
  \<open>TypeError\<close>, which is another error.
\<close>

theorem query_surfaces_another_error:
  "snd (stylesheetsThatUsedProperty no_colon_store [0] None (Some ''box'')) = Inl TypeError \<and>
   snd (getPropertyUse no_colon_store [0] None (Some ''box'')) = Inl TypeError \<and>
   TypeError \<noteq> no_active_stylesheets"
  by code_simp

text \<open>
  C7, amended. After any sequence of events on a new gatherer, \<open>endStylesCollect\<close>
  rejects with its one reason exactly when no pass has begun or the active collection is
  empty; it rejects with nothing else; and in every other case it resolves with the
  array of the active collection, which holds the active records.
\<close>

theorem endStylesCollect_fails_iff_not_started_or_empty:
  "(snd (endStylesCollect (run parse Styles_new evs)) = Inl no_active_stylesheets \<longleftrightarrow>
      (\<forall>d. BeforePass d \<notin> set evs) \<or> active (run parse Styles_new evs) = []) \<and>
   (\<forall>e. snd (endStylesCollect (run parse Styles_new evs)) = Inl e \<longrightarrow> e = no_active_stylesheets) \<and>
   ((\<exists>d. BeforePass d \<in> set evs) \<and> active (run parse Styles_new evs) \<noteq> [] \<longrightarrow>
      snd (endStylesCollect (run parse Styles_new evs)) = Inr (activeStyles (run parse Styles_new evs)) \<and>
      arrays (fst (endStylesCollect (run parse Styles_new evs))) (activeStyles (run parse Styles_new evs))
        = active (run parse Styles_new evs))"
proof -
  have d: "driver (run parse Styles_new evs) = None \<longleftrightarrow> (\<forall>d. BeforePass d \<notin> set evs)"
    by (simp add: driver_run Styles_new_def)
  show ?thesis
    unfolding endStylesCollect_def active_def using d by auto
qed

theorem endStylesCollect_fails_iff_not_started_or_empty_witness:
  "snd (endStylesCollect (run no_declarations Styles_new [])) = Inl no_active_stylesheets \<and>
   snd (endStylesCollect (run no_declarations Styles_new [BeforePass 0])) = Inl no_active_stylesheets \<and>
   snd (endStylesCollect (run no_declarations Styles_new session_trace)) = Inr 0 \<and>
   arrays (fst (endStylesCollect (run no_declarations Styles_new session_trace))) 0 = [sheet_a]"
proof -
  have a: "active (run no_declarations Styles_new [BeforePass 0]) = []" by code_simp
  have b: "activeStyles (run no_declarations Styles_new session_trace) = 0"
    by (simp add: activeStyles_run Styles_new_def)
  have c: "BeforePass 0 \<in> set session_trace" by (simp add: session_trace_def)
  show ?thesis
    using endStylesCollect_fails_iff_not_started_or_empty [of no_declarations "[]"]
      endStylesCollect_fails_iff_not_started_or_empty [of no_declarations "[BeforePass 0]"]
      endStylesCollect_fails_iff_not_started_or_empty [of no_declarations session_trace]
      a b c session_trace_active
    by auto
qed

subsection \<open>The collection that the end of a session returns\<close>

text \<open>
  The claim C4 as it stands: what \<open>endStylesCollect\<close> returns is a snapshot that later
  changes of the active collection do not reach. In the session below the end returns
  the array at address 0, which holds one record; the text of the second stylesheet
  arrives afterwards, and the array at address 0 holds two.
\<close>

theorem returned_collection_changes_after_end:
  "snd (endStylesCollect (run no_declarations Styles_new racing_trace)) = Inr 0 \<and>
   arrays (fst (endStylesCollect (run no_declarations Styles_new racing_trace))) 0 = [sheet_a] \<and>
   arrays (step no_declarations (fst (endStylesCollect (run no_declarations Styles_new racing_trace)))
             (TextFetched 0 ''b{}'')) 0 = [sheet_a, sheet_b]"
  by code_simp

text \<open>
  C4, amended. When \<open>endStylesCollect\<close> succeeds, what it returns is the array
  \<open>this._activeStyles\<close> itself: at that moment it holds the active records, and after
  any later events it holds whatever the active collection holds then.
\<close>

theorem endStylesCollect_returns_the_active_array:
  assumes "snd (endStylesCollect s) = Inr a"
  shows "a = activeStyles s \<and>
         arrays (fst (endStylesCollect s)) a = active s \<and>
         arrays (run parse (fst (endStylesCollect s)) evs) a
           = active (run parse (fst (endStylesCollect s)) evs)"
proof -
  from assms have a: "a = activeStyles s"
    by (auto simp: endStylesCollect_def split: if_splits)
  have e: "activeStyles (fst (endStylesCollect s)) = activeStyles s"
    and f: "arrays (fst (endStylesCollect s)) = arrays s"
    by (simp_all add: endStylesCollect_def)
  show ?thesis
    using a e f by (simp add: active_def activeStyles_run)
qed

theorem endStylesCollect_returns_the_active_array_witness:
  "snd (endStylesCollect (run no_declarations Styles_new racing_trace)) = Inr 0 \<and>
   arrays (run no_declarations (fst (endStylesCollect (run no_declarations Styles_new racing_trace)))
             [TextFetched 0 ''b{}'']) 0 = [sheet_a, sheet_b] \<and>
   active (run no_declarations (fst (endStylesCollect (run no_declarations Styles_new racing_trace)))
             [TextFetched 0 ''b{}'']) = [sheet_a, sheet_b]"
proof -
  have v: "active (run no_declarations (fst (endStylesCollect (run no_declarations Styles_new racing_trace)))
             [TextFetched 0 ''b{}'']) = [sheet_a, sheet_b]"
    by code_simp
  show ?thesis
    using endStylesCollect_returns_the_active_array
            [OF racing_trace_end, of no_declarations "[TextFetched 0 ''b{}'']"]
      racing_trace_end v
    by simp
qed

subsection \<open>The beginning of a session\<close>

text \<open>
  The claim C6 as it stands: after the start the active collection is empty, also when
  an earlier session left records. Below, a first pass leaves one record, and after the
  start of the second pass the active collection still holds it.
\<close>

theorem leftover_records_survive_start:
  "active (run no_declarations Styles_new (session_trace @ [AfterPass])) = [sheet_a] \<and>
   active (beginStylesCollect 0 (run no_declarations Styles_new (session_trace @ [AfterPass]))) = [sheet_a] \<and>
   active (run no_declarations Styles_new (session_trace @ [AfterPass, BeforePass 0])) \<noteq> []"
  by code_simp

text \<open>
  C6, amended. The start leaves the active collection as it is and stores the driver.
  The constructor makes the collection empty, so it is empty after the first start of a
  new gatherer; records of an earlier session stay, and a stylesheet of regular origin
  that is added after the start and whose text arrives and parses is appended to them.
\<close>

theorem beginStylesCollect_keeps_active:
  "active (beginStylesCollect d s) = active s \<and>
   active (step parse s (BeforePass d)) = active s \<and>
   driver (beginStylesCollect d s) = Some d \<and>
   active Styles_new = [] \<and>
   active (beginStylesCollect d Styles_new) = [] \<and>
   (origin h = ''regular'' \<and> parse text = Some tree \<longrightarrow>
      active (run parse s [BeforePass d, StyleSheetAdded h, TextFetched (length (requests s)) text])
        = active s @ [\<lparr>header = h, content = Some text,
                        parsedContent = Some (getCSSPropsInStyleSheet tree)\<rparr>])"
proof -
  have start: "active (beginStylesCollect d s) = active s \<and>
      active (step parse s (BeforePass d)) = active s \<and>
      driver (beginStylesCollect d s) = Some d \<and>
      active Styles_new = [] \<and>
      active (beginStylesCollect d Styles_new) = []"
    by (simp add: beginStylesCollect_def active_def step_def beforePass_def Styles_new_def)
  have added: "active (run parse s [BeforePass d, StyleSheetAdded h, TextFetched (length (requests s)) text])
        = active s @ [\<lparr>header = h, content = Some text,
                        parsedContent = Some (getCSSPropsInStyleSheet tree)\<rparr>]"
    if "origin h = ''regular''" and "parse text = Some tree"
    using that
    by (simp add: run_def step_def beforePass_def beginStylesCollect_def onStyleSheetAdded_def
        styleSheetText_resolved_def active_def Let_def)
  show ?thesis
    using start added by blast
qed

theorem beginStylesCollect_keeps_active_witness:
  "origin header_b = ''regular'' \<and> no_declarations ''b{}'' = Some [] \<and>
   active (beginStylesCollect 0 Styles_new) = [] \<and>
   active (run no_declarations Styles_new (session_trace @ [AfterPass])) = [sheet_a] \<and>
   active (beginStylesCollect 0 (run no_declarations Styles_new (session_trace @ [AfterPass])))
     = [sheet_a] \<and>
   active (run no_declarations (run no_declarations Styles_new (session_trace @ [AfterPass]))
             [BeforePass 0, StyleSheetAdded header_b, TextFetched 0 ''b{}''])
     = [sheet_a, sheet_b]"
proof -
  have reg: "origin header_b = ''regular''" by (simp add: header_b_def)
  have parsed: "no_declarations ''b{}'' = Some []" by (simp add: no_declarations_def)
  have both: "origin header_b = ''regular'' \<and> no_declarations ''b{}'' = Some []"
    using reg parsed by simp
  have b: "\<lparr>header = header_b, content = Some ''b{}'',
             parsedContent = Some (getCSSPropsInStyleSheet [])\<rparr> = sheet_b"
    by (simp add: sheet_b_def getCSSPropsInStyleSheet_def)
  show ?thesis
    using beginStylesCollect_keeps_active [of 0 Styles_new no_declarations header_b "''b{}''" "[]"]
      beginStylesCollect_keeps_active
        [of 0 "run no_declarations Styles_new (session_trace @ [AfterPass])" no_declarations
            header_b "''b{}''" "[]"]
      both b first_pass_active first_pass_requests
    by simp
qed

end
